theory Spec2Isabelle
  imports
    Main
    "HOL-Library.AList"
    "HOL-Library.Char_ord"
    "HOL-Library.List_Lexorder"
    "HOL-Library.Multiset"
    "HOL-Library.Sublist"
    "HOL-Library.Word"
begin

section \<open>Data model of cmd/handler.go\<close>

text \<open>
  The protobuf messages of \<^verbatim>\<open>prom\<close> that the handler touches. A \<^verbatim>\<open>*string\<close> field is read
  only through its getter (\<^verbatim>\<open>GetName\<close>, \<^verbatim>\<open>GetValue\<close>), which turns a nil pointer into the
  empty string, so the fields are modelled as strings. The sample payload of a metric
  (gauge, counter, summary, untyped, histogram, timestamp) is never inspected by the
  handler and is the type parameter \<open>'v\<close>.
\<close>

record LabelPair =
  Name :: string
  Value :: string

record 'v Metric =
  Label :: "LabelPair list"
  Sample :: 'v

datatype MetricType = COUNTER | GAUGE | SUMMARY | UNTYPED | HISTOGRAM

record 'v MetricFamily =
  Name :: string
  Help :: string
  Type :: MetricType
  Metric :: "'v Metric list"

definition GetName :: "LabelPair \<Rightarrow> string" where
  "GetName label = LabelPair.Name label"

definition GetValue :: "LabelPair \<Rightarrow> string" where
  "GetValue label = LabelPair.Value label"

definition GetLabel :: "'v Metric \<Rightarrow> LabelPair list" where
  "GetLabel m = Label m"

text \<open>
  \<^verbatim>\<open>type Handler struct\<close>. \<^verbatim>\<open>ExportersHTTPTimeout\<close> is a Go \<^verbatim>\<open>int\<close>, 64 bits wide on the
  platforms the exporter is built for.
\<close>

record Handler =
  Exporters :: "string list"
  ExportersHTTPTimeout :: "64 word"
  Deduplicate :: bool

section \<open>labelSignature and deduplicateMetricFamily\<close>

text \<open>\<^verbatim>\<open>strings.Join(parts, sep)\<close>.\<close>

fun Join :: "string list \<Rightarrow> string \<Rightarrow> string" where
  "Join [] sep = []"
| "Join [p] sep = p"
| "Join (p # q # ps) sep = p @ sep @ Join (q # ps) sep"

text \<open>\<^verbatim>\<open>fmt.Sprintf("%s=%s", name, value)\<close>.\<close>

definition Sprintf_eq :: "string \<Rightarrow> string \<Rightarrow> string" where
  "Sprintf_eq n v = n @ ''='' @ v"

text \<open>
  \<^verbatim>\<open>labelSignature\<close>: one \<^verbatim>\<open>name=value\<close> string per label, in label order; \<^verbatim>\<open>sort.Strings\<close>
  (ascending, bytewise lexicographic, which is the order of \<open>string\<close> here); joined
  with a comma.
\<close>

definition labelSignature :: "LabelPair list \<Rightarrow> string" where
  "labelSignature labels =
     Join (sort (map (\<lambda>label. Sprintf_eq (GetName label) (GetValue label)) labels)) '',''"

text \<open>
  The loop of \<^verbatim>\<open>deduplicateMetricFamily\<close> over \<^verbatim>\<open>mf.Metric\<close>, with its two variables: the
  map \<^verbatim>\<open>seen\<close> (a key is present exactly when it was stored with \<^verbatim>\<open>true\<close>) as a set, and
  the slice \<^verbatim>\<open>deduplicated\<close>.
\<close>

fun dedup_loop :: "string set \<Rightarrow> 'v Metric list \<Rightarrow> 'v Metric list \<Rightarrow> 'v Metric list" where
  "dedup_loop seen deduplicated [] = deduplicated"
| "dedup_loop seen deduplicated (m # ms) =
     (let signature = labelSignature (GetLabel m) in
      if signature \<in> seen then dedup_loop seen deduplicated ms
      else dedup_loop (insert signature seen) (deduplicated @ [m]) ms)"

definition deduplicateMetricFamily :: "'v MetricFamily \<Rightarrow> 'v MetricFamily" where
  "deduplicateMetricFamily mf = mf\<lparr>Metric := dedup_loop {} [] (Metric mf)\<rparr>"

abbreviation sig :: "'v Metric \<Rightarrow> string" where
  "sig m \<equiv> labelSignature (GetLabel m)"

section \<open>Handler.Merge\<close>

subsection \<open>The fetch timeout\<close>

text \<open>
  \<^verbatim>\<open>httpClientTimeout := time.Second * time.Duration(h.ExportersHTTPTimeout)\<close>: a
  \<^verbatim>\<open>time.Duration\<close> is an \<^verbatim>\<open>int64\<close> count of nanoseconds and the product wraps.
\<close>

definition Second :: "64 word" where
  "Second = 1000000000"

definition httpClientTimeout :: "Handler \<Rightarrow> 64 word" where
  "httpClientTimeout h = Second * ExportersHTTPTimeout h"


subsection \<open>Fan-out\<close>

text \<open>
  A Go \<^verbatim>\<open>map[string]*prom.MetricFamily\<close> is an association list read with \<open>map_of\<close> and
  written with \<open>AList.update\<close>; a \<^verbatim>\<open>range\<close> over it visits the entries in list order, one of
  the orders Go may choose. A nil map is \<open>None\<close>.
\<close>

type_synonym 'v families = "(string \<times> 'v MetricFamily) list"

text \<open>
  What one goroutine obtains: \<^verbatim>\<open>httpClient.Get\<close> returned an error, or
  \<^verbatim>\<open>TextToMetricFamilies\<close> did, or the body parsed into \<^verbatim>\<open>part\<close>. A response with a status
  other than 2xx is no error of \<^verbatim>\<open>Get\<close>: its body is parsed like any other. The parser keys
  every family by its own name. The model covers the runs in which every fetch returns.
\<close>

datatype 'v fetched = GetFailed string | ParseFailed string | Parsed "'v families"

text \<open>
  The two calls behind an outcome. \<^verbatim>\<open>httpClient.Get(u)\<close> gives an error or a response, which
  carries a status code and a body; for a status other than 2xx \<^verbatim>\<open>Get\<close> gives the response
  and no error. The goroutine reads \<^verbatim>\<open>resp.Body\<close> only: \<^verbatim>\<open>resp.StatusCode\<close> occurs nowhere in
  \<^verbatim>\<open>Merge\<close>. \<open>parse\<close> is \<^verbatim>\<open>TextToMetricFamilies\<close>, which gives an error or \<^verbatim>\<open>part\<close>.
\<close>

datatype response = Get_error string | Response nat string

definition parsed_response ::
  "(string \<Rightarrow> string + 'v families) \<Rightarrow> response \<Rightarrow> 'v fetched" where
  "parsed_response parse r =
     (case r of
        Get_error err \<Rightarrow> GetFailed err
      | Response status body \<Rightarrow>
          (case parse body of Inl err \<Rightarrow> ParseFailed err | Inr part \<Rightarrow> Parsed part))"

definition fetch_and_parse ::
  "(string \<Rightarrow> string + 'v families) \<Rightarrow> (64 word \<Rightarrow> nat \<times> string \<Rightarrow> response) \<Rightarrow>
   64 word \<Rightarrow> nat \<times> string \<Rightarrow> 'v fetched" where
  "fetch_and_parse parse http T t = parsed_response parse (http T t)"

text \<open>The lines written at error level, with the url and the error of each.\<close>

datatype log_entry =
    HTTP_connection_failed string string
  | Parse_response_failed string string
  | Encode_failed string

text \<open>The two variables the goroutines share: \<^verbatim>\<open>responses\<close> (under \<^verbatim>\<open>responsesMu\<close>) and the log.\<close>

record 'v collected =
  responses :: "'v families option list"
  logged :: "log_entry list"

text \<open>
  The body of the goroutine started for the \<open>i\<close>-th exporter \<open>u\<close>. The world is \<open>get\<close>:
  the outcome of the GET by a client with the given \<^verbatim>\<open>Timeout\<close>, followed by the parse.
  A goroutine either logs once or appends once.
\<close>

definition goroutine ::
  "Handler \<Rightarrow> (64 word \<Rightarrow> nat \<times> string \<Rightarrow> 'v fetched) \<Rightarrow> nat \<times> string \<Rightarrow>
   'v collected \<Rightarrow> 'v collected" where
  "goroutine h get t s =
     (case get (httpClientTimeout h) t of
        GetFailed err \<Rightarrow> s\<lparr>logged := logged s @ [HTTP_connection_failed (snd t) err]\<rparr>
      | ParseFailed err \<Rightarrow> s\<lparr>logged := logged s @ [Parse_response_failed (snd t) err]\<rparr>
      | Parsed part \<Rightarrow> s\<lparr>responses := responses s @ [Some part]\<rparr>)"

text \<open>\<^verbatim>\<open>for _, url := range h.Exporters { wg.Add(1); go func(u string) {...}(url) }\<close>.\<close>

definition launch :: "Handler \<Rightarrow> (nat \<times> string) list" where
  "launch h = enumerate 0 (Exporters h)"

text \<open>
  \<^verbatim>\<open>responses := make([]map[string]*prom.MetricFamily, 1024)\<close> is a slice of length 1024 whose
  entries are nil. The goroutines run to their end in an order the scheduler chooses:
  \<open>sched\<close> maps the goroutines in launch order to the order in which they log or append;
  \<^verbatim>\<open>wg.Wait()\<close> returns when all have.
\<close>

definition fan_out ::
  "Handler \<Rightarrow> (64 word \<Rightarrow> nat \<times> string \<Rightarrow> 'v fetched) \<Rightarrow>
   ((nat \<times> string) list \<Rightarrow> (nat \<times> string) list) \<Rightarrow> 'v collected" where
  "fan_out h get sched =
     fold (goroutine h get) (sched (launch h)) \<lparr>responses = replicate 1024 None, logged = []\<rparr>"

text \<open>A scheduler runs every launched goroutine once.\<close>

definition fair :: "Handler \<Rightarrow> ((nat \<times> string) list \<Rightarrow> (nat \<times> string) list) \<Rightarrow> bool" where
  "fair h sched \<longleftrightarrow> mset (sched (launch h)) = mset (launch h)"

subsection \<open>Merging\<close>

text \<open>
  The body of the inner loop, for the entry \<^verbatim>\<open>n, mf\<close> of \<^verbatim>\<open>part\<close>: \<^verbatim>\<open>mfo\<close> is a pointer, so
  the append changes the family stored in \<^verbatim>\<open>mfs\<close>.
\<close>

fun merge_family :: "'v families \<Rightarrow> string \<times> 'v MetricFamily \<Rightarrow> 'v families" where
  "merge_family mfs (n, mf) =
     (case map_of mfs n of
        Some mfo \<Rightarrow> AList.update n (mfo\<lparr>Metric := Metric mfo @ Metric mf\<rparr>) mfs
      | None \<Rightarrow> AList.update n mf mfs)"

definition merge_part :: "'v families \<Rightarrow> 'v families option \<Rightarrow> 'v families" where
  "merge_part mfs part = (case part of None \<Rightarrow> mfs | Some entries \<Rightarrow> foldl merge_family mfs entries)"

definition merge_responses :: "'v families option list \<Rightarrow> 'v families" where
  "merge_responses rs = foldl merge_part [] rs"

subsection \<open>Deduplication and emission\<close>

text \<open>\<^verbatim>\<open>for n, mf := range mfs { mfs[n] = deduplicateMetricFamily(mf) }\<close>.\<close>

definition dedup_all :: "'v families \<Rightarrow> 'v families" where
  "dedup_all mfs = map (\<lambda>(n, mf). (n, deduplicateMetricFamily mf)) mfs"

text \<open>The family set handed to the encoder.\<close>

definition family_set ::
  "Handler \<Rightarrow> (64 word \<Rightarrow> nat \<times> string \<Rightarrow> 'v fetched) \<Rightarrow>
   ((nat \<times> string) list \<Rightarrow> (nat \<times> string) list) \<Rightarrow> 'v families" where
  "family_set h get sched =
     (let mfs = merge_responses (responses (fan_out h get sched))
      in if Deduplicate h then dedup_all mfs else mfs)"

text \<open>\<^verbatim>\<open>names\<close>: the keys of \<^verbatim>\<open>mfs\<close>, then \<^verbatim>\<open>sort.Strings\<close>.\<close>

definition sorted_names :: "'v families \<Rightarrow> string list" where
  "sorted_names mfs = sort (map fst mfs)"

text \<open>
  The last loop. \<^verbatim>\<open>enc.Encode(mfs[n])\<close> belongs to \<^verbatim>\<open>expfmt\<close> and writes to \<^verbatim>\<open>w\<close>: \<open>enc\<close> takes
  the writer's state and the pointer \<^verbatim>\<open>mfs[n]\<close> (\<open>None\<close> is nil) and gives the error, if any,
  and the writer's state afterwards. On an error the loop logs it and \<^verbatim>\<open>Merge\<close> returns.
\<close>

fun encode_loop ::
  "('w \<Rightarrow> 'v MetricFamily option \<Rightarrow> string option \<times> 'w) \<Rightarrow> 'v families \<Rightarrow> 'w \<Rightarrow>
   string list \<Rightarrow> string option \<times> 'w" where
  "encode_loop enc mfs w [] = (None, w)"
| "encode_loop enc mfs w (n # names) =
     (case enc w (map_of mfs n) of
        (Some err, w') \<Rightarrow> (Some err, w')
      | (None, w') \<Rightarrow> encode_loop enc mfs w' names)"

text \<open>
  \<^verbatim>\<open>Merge\<close> has no result value: what it leaves behind is the writer and the log.
\<close>

record 'w effects =
  written :: 'w
  logs :: "log_entry list"

definition Merge ::
  "Handler \<Rightarrow> (64 word \<Rightarrow> nat \<times> string \<Rightarrow> 'v fetched) \<Rightarrow>
   ((nat \<times> string) list \<Rightarrow> (nat \<times> string) list) \<Rightarrow>
   ('w \<Rightarrow> 'v MetricFamily option \<Rightarrow> string option \<times> 'w) \<Rightarrow> 'w \<Rightarrow> 'w effects" where
  "Merge h get sched enc w =
     (let mfs = family_set h get sched
      in case encode_loop enc mfs w (sorted_names mfs) of
           (None, w') \<Rightarrow> \<lparr>written = w', logs = logged (fan_out h get sched)\<rparr>
         | (Some err, w') \<Rightarrow>
             \<lparr>written = w', logs = logged (fan_out h get sched) @ [Encode_failed err]\<rparr>)"

text \<open>An encoder that only records the pointers it is given, in order.\<close>

definition recording ::
  "'v MetricFamily option list \<Rightarrow> 'v MetricFamily option \<Rightarrow>
   string option \<times> 'v MetricFamily option list" where
  "recording w mf = (None, w @ [mf])"

text \<open>All entries with key \<open>n\<close>, in order.\<close>

definition families_named :: "string \<Rightarrow> 'v families \<Rightarrow> 'v MetricFamily list" where
  "families_named n entries = map snd (filter (\<lambda>e. fst e = n) entries)"

text \<open>What a source hands to the merge: the entries of its part, or nothing.\<close>

definition contribution :: "'v fetched \<Rightarrow> 'v families" where
  "contribution r = (case r of Parsed part \<Rightarrow> part | _ \<Rightarrow> [])"

section \<open>Scenarios\<close>

text \<open>
  Two series of one family whose label sets differ, \<^verbatim>\<open>{a="1,b=2"}\<close> and \<^verbatim>\<open>{a="1",b="2"}\<close>,
  with samples 1 and 0.
\<close>

definition comma_series :: "nat Metric" where
  "comma_series = \<lparr>Label = [\<lparr>LabelPair.Name = ''a'', Value = ''1,b=2''\<rparr>], Sample = 1\<rparr>"

definition plain_series :: "nat Metric" where
  "plain_series =
     \<lparr>Label = [\<lparr>LabelPair.Name = ''a'', Value = ''1''\<rparr>, \<lparr>LabelPair.Name = ''b'', Value = ''2''\<rparr>],
      Sample = 0\<rparr>"



text \<open>A series \<^verbatim>\<open>{instance=i}\<close> with sample \<open>v\<close>, and a gauge family around a list of series.\<close>

definition series :: "string \<Rightarrow> nat \<Rightarrow> nat Metric" where
  "series i v = \<lparr>Label = [\<lparr>LabelPair.Name = ''instance'', Value = i\<rparr>], Sample = v\<rparr>"

definition gauge :: "string \<Rightarrow> nat Metric list \<Rightarrow> nat MetricFamily" where
  "gauge n ms = \<lparr>Name = n, Help = n, Type = GAUGE, Metric = ms\<rparr>"

text \<open>Whether a goroutine reached the append.\<close>

definition succeeded :: "'v fetched \<Rightarrow> bool" where
  "succeeded r = (case r of Parsed part \<Rightarrow> True | _ \<Rightarrow> False)"

text \<open>The parts appended by the goroutines \<open>ts\<close>, in that order.\<close>

definition parsed_parts ::
  "Handler \<Rightarrow> (64 word \<Rightarrow> nat \<times> string \<Rightarrow> 'v fetched) \<Rightarrow> (nat \<times> string) list \<Rightarrow>
   'v families list" where
  "parsed_parts h get ts =
     concat (map (\<lambda>t. case get (httpClientTimeout h) t of Parsed part \<Rightarrow> [part] | _ \<Rightarrow> []) ts)"

text \<open>
  Two exporters that both expose \<^verbatim>\<open>up{instance="a"}\<close>, the first with sample 1 and the second
  with sample 0; deduplication is on.
\<close>

definition two_exporters :: Handler where
  "two_exporters =
     \<lparr>Exporters = [''http://a/metrics'', ''http://b/metrics''], ExportersHTTPTimeout = 1,
      Deduplicate = True\<rparr>"

definition both_up :: "64 word \<Rightarrow> nat \<times> string \<Rightarrow> nat fetched" where
  "both_up T t =
     (if fst t = 0 then Parsed [(''up'', gauge ''up'' [series ''a'' 1])]
      else Parsed [(''up'', gauge ''up'' [series ''a'' 0])])"

text \<open>The same two exporters, unreachable and garbled.\<close>

definition both_down :: "64 word \<Rightarrow> nat \<times> string \<Rightarrow> nat fetched" where
  "both_down T t =
     (if fst t = 0 then GetFailed ''connection refused'' else ParseFailed ''unexpected end of input'')"

text \<open>No exporter at all, and a single one with the timeout left at zero.\<close>

definition no_exporters :: Handler where
  "no_exporters = \<lparr>Exporters = [], ExportersHTTPTimeout = 1, Deduplicate = False\<rparr>"


text \<open>One exporter that exposes the families \<^verbatim>\<open>a\<close> and \<^verbatim>\<open>b\<close>, or the family \<^verbatim>\<open>a\<close> only.\<close>

definition one_exporter :: Handler where
  "one_exporter =
     \<lparr>Exporters = [''http://a/metrics''], ExportersHTTPTimeout = 1, Deduplicate = False\<rparr>"

definition exposes_a_b :: "64 word \<Rightarrow> nat \<times> string \<Rightarrow> nat fetched" where
  "exposes_a_b T t =
     Parsed [(''b'', gauge ''b'' [series ''x'' 2]), (''a'', gauge ''a'' [series ''x'' 1])]"

definition exposes_a :: "64 word \<Rightarrow> nat \<times> string \<Rightarrow> nat fetched" where
  "exposes_a T t = Parsed [(''a'', gauge ''a'' [series ''x'' 1])]"

text \<open>
  A writer that accepts \<open>k\<close> more families and then rejects every write. Its state is the
  names of the families written and \<open>k\<close>.
\<close>

definition closing_after ::
  "string list \<times> nat \<Rightarrow> nat MetricFamily option \<Rightarrow> string option \<times> (string list \<times> nat)" where
  "closing_after w mf =
     (if snd w = 0 then (Some ''write: broken pipe'', w)
      else (None, (fst w @ [case mf of None \<Rightarrow> [] | Some f \<Rightarrow> MetricFamily.Name f], snd w - 1)))"


text \<open>Three exporters of which the second refuses the connection; deduplication is off.\<close>

definition three_exporters :: Handler where
  "three_exporters =
     \<lparr>Exporters = [''http://a/metrics'', ''http://b/metrics'', ''http://c/metrics''],
      ExportersHTTPTimeout = 1, Deduplicate = False\<rparr>"

definition middle_down :: "64 word \<Rightarrow> nat \<times> string \<Rightarrow> nat fetched" where
  "middle_down T t =
     (if fst t = 0 then Parsed [(''foo'', gauge ''foo'' [series ''a'' 1])]
      else if fst t = 1 then GetFailed ''connection refused''
      else Parsed [(''bar'', gauge ''bar'' [series ''c'' 2])])"

text \<open>
  The body \<^verbatim>\<open>up 0\<close> with its line feed, the family it parses into, and a parser that reads
  this body and no other. Of two exporters the first refuses the connection and the second
  answers with status 500 and this body.
\<close>

definition up_body :: string where
  "up_body = ''up 0'' @ [CHR 0x0A]"

definition up_untyped :: "nat MetricFamily" where
  "up_untyped = \<lparr>Name = ''up'', Help = [], Type = UNTYPED, Metric = [\<lparr>Label = [], Sample = 0\<rparr>]\<rparr>"

definition reads :: "string \<Rightarrow> string + nat families" where
  "reads body =
     (if body = up_body then Inr [(''up'', up_untyped)] else Inl ''text format parsing error'')"

definition second_answers_500 :: "64 word \<Rightarrow> nat \<times> string \<Rightarrow> response" where
  "second_answers_500 T t =
     (if fst t = 0 then Get_error ''connection refused'' else Response 500 up_body)"

text \<open>
  Series that carry the kind of their value, and an encoder that rejects a family holding
  a series whose kind is not the type of the family. The first exporter exposes \<^verbatim>\<open>foo\<close> as a
  gauge, the second as a counter.
\<close>

definition kind_series :: "MetricType \<Rightarrow> string \<Rightarrow> (MetricType \<times> nat) Metric" where
  "kind_series k i = \<lparr>Label = [\<lparr>LabelPair.Name = ''instance'', Value = i\<rparr>], Sample = (k, 1)\<rparr>"

definition family_of ::
  "string \<Rightarrow> MetricType \<Rightarrow> (MetricType \<times> nat) Metric list \<Rightarrow> (MetricType \<times> nat) MetricFamily" where
  "family_of n k ms = \<lparr>Name = n, Help = [], Type = k, Metric = ms\<rparr>"

definition gauge_and_counter :: "64 word \<Rightarrow> nat \<times> string \<Rightarrow> (MetricType \<times> nat) fetched" where
  "gauge_and_counter T t =
     (if fst t = 0
      then Parsed [(''foo'', family_of ''foo'' GAUGE [kind_series GAUGE ''a'', kind_series GAUGE ''b'']),
                   (''zzz'', family_of ''zzz'' GAUGE [kind_series GAUGE ''a''])]
      else Parsed [(''foo'', family_of ''foo'' COUNTER [kind_series COUNTER ''a''])])"

definition kind_checking ::
  "(MetricType \<times> nat) MetricFamily option list \<Rightarrow> (MetricType \<times> nat) MetricFamily option \<Rightarrow>
   string option \<times> (MetricType \<times> nat) MetricFamily option list" where
  "kind_checking w mf =
     (case mf of
        None \<Rightarrow> (None, w @ [mf])
      | Some f \<Rightarrow>
          (if list_all (\<lambda>m. fst (Sample m) = Type f) (Metric f) then (None, w @ [mf])
           else (Some ''expected a metric of the type of the family'', w)))"

section \<open>Properties of the deduplication loop\<close>

lemma dedup_loop_acc: "dedup_loop seen acc ms = acc @ dedup_loop seen [] ms"
proof (induction ms arbitrary: seen acc)
  case Nil show ?case by simp
next
  case (Cons m ms)
  show ?case
    using Cons.IH [of seen acc] Cons.IH [of "insert (sig m) seen" "acc @ [m]"]
          Cons.IH [of "insert (sig m) seen" "[m]"]
    by (simp add: Let_def)
qed


lemma dedup_loop_sigs: "sig ` set (dedup_loop seen [] ms) = sig ` set ms - seen"
proof (induction ms arbitrary: seen)
  case Nil show ?case by simp
next
  case (Cons m ms)
  show ?case
    using Cons.IH [of seen] Cons.IH [of "insert (sig m) seen"]
          dedup_loop_acc [of "insert (sig m) seen" "[m]" ms]
    by (auto simp add: Let_def)
qed

lemma dedup_loop_distinct: "distinct (map sig (dedup_loop seen [] ms))"
proof (induction ms arbitrary: seen)
  case Nil show ?case by simp
next
  case (Cons m ms)
  show ?case
    using Cons.IH [of seen] Cons.IH [of "insert (sig m) seen"]
          dedup_loop_acc [of "insert (sig m) seen" "[m]" ms]
          dedup_loop_sigs [of "insert (sig m) seen" ms]
    by (auto simp add: Let_def)
qed


lemma dedup_loop_fixed:
  "distinct (map sig ms) \<Longrightarrow> sig ` set ms \<inter> seen = {} \<Longrightarrow> dedup_loop seen [] ms = ms"
proof (induction ms arbitrary: seen)
  case Nil show ?case by simp
next
  case (Cons m ms)
  have "dedup_loop (insert (sig m) seen) [] ms = ms"
    using Cons.prems by (intro Cons.IH) auto
  then show ?case
    using Cons.prems dedup_loop_acc [of "insert (sig m) seen" "[m]" ms]
    by (auto simp add: Let_def)
qed

lemma dedup_family_fixed:
  "deduplicateMetricFamily (deduplicateMetricFamily mf) = deduplicateMetricFamily mf"
  using dedup_loop_fixed [OF dedup_loop_distinct [of "{}" "Metric mf"]]
  by (simp add: deduplicateMetricFamily_def)

lemma map_of_dedup_all:
  "map_of (dedup_all mfs) n = map_option deduplicateMetricFamily (map_of mfs n)"
  by (induction mfs) (auto simp: dedup_all_def)

lemma keys_dedup_all: "map fst (dedup_all mfs) = map fst mfs"
  by (induction mfs) (auto simp: dedup_all_def)

lemma comma_plain_signature:
  "sig comma_series = ''a=1,b=2''" "sig plain_series = ''a=1,b=2''"
  by (simp_all add: comma_series_def plain_series_def labelSignature_def Sprintf_eq_def
        GetName_def GetValue_def GetLabel_def)

lemma sig_series: "sig (series i v) = ''instance='' @ i"
  by (simp add: series_def labelSignature_def Sprintf_eq_def GetName_def GetValue_def
        GetLabel_def)



section \<open>Properties of the merge\<close>

lemma map_of_merge_family:
  "map_of (merge_family mfs (n, mf)) =
     (map_of mfs)(n \<mapsto> (case map_of mfs n of None \<Rightarrow> mf
                              | Some mfo \<Rightarrow> mfo\<lparr>Metric := Metric mfo @ Metric mf\<rparr>))"
  by (simp add: update_conv' split: option.split)

lemma keys_merge_family: "fst ` set (merge_family mfs e) = insert (fst e) (fst ` set mfs)"
  by (cases e) (simp add: dom_update split: option.split)

lemma distinct_merge_family:
  "distinct (map fst mfs) \<Longrightarrow> distinct (map fst (merge_family mfs e))"
  by (cases e) (simp add: distinct_update split: option.split)

lemma keys_foldl_merge:
  "fst ` set (foldl merge_family mfs entries) = fst ` set mfs \<union> fst ` set entries"
  by (induction entries arbitrary: mfs) (auto simp: keys_merge_family)

lemma distinct_foldl_merge:
  "distinct (map fst mfs) \<Longrightarrow> distinct (map fst (foldl merge_family mfs entries))"
  by (induction entries arbitrary: mfs) (auto simp: distinct_merge_family)

lemma families_named_Cons:
  "families_named n (e # es) =
     (if fst e = n then snd e # families_named n es else families_named n es)"
  by (simp add: families_named_def)

lemma map_of_foldl_merge:
  "map_of (foldl merge_family mfs entries) n =
     (case map_of mfs n of
        Some mfo \<Rightarrow>
          Some (mfo\<lparr>Metric := Metric mfo @ concat (map Metric (families_named n entries))\<rparr>)
      | None \<Rightarrow>
         (case families_named n entries of
            [] \<Rightarrow> None
          | f # fs \<Rightarrow> Some (f\<lparr>Metric := Metric f @ concat (map Metric fs)\<rparr>)))"
proof (induction entries arbitrary: mfs)
  case Nil
  show ?case by (simp add: families_named_def split: option.split)
next
  case (Cons e es)
  obtain k mf where e: "e = (k, mf)" by (cases e)
  show ?case
    unfolding e foldl_Cons Cons.IH map_of_merge_family families_named_Cons
    by (simp split: option.split)
qed

lemma merge_part_entries:
  "foldl merge_part mfs rs = foldl merge_family mfs (concat (map (case_option [] id) rs))"
  by (induction rs arbitrary: mfs) (auto simp: merge_part_def split: option.split)

lemma merge_responses_entries:
  "merge_responses rs = foldl merge_family [] (concat (map (case_option [] id) rs))"
  by (simp add: merge_responses_def merge_part_entries)

lemma entries_replicate_None: "concat (map (case_option [] id) (replicate k None)) = []"
  by (induction k) auto

lemma responses_fold_goroutine:
  "responses (fold (goroutine h get) ts s) = responses s @ map Some (parsed_parts h get ts)"
  by (induction ts arbitrary: s) (auto simp: goroutine_def parsed_parts_def split: fetched.split)

lemma logged_fold_goroutine:
  "Encode_failed e \<notin> set (logged s) \<Longrightarrow> Encode_failed e \<notin> set (logged (fold (goroutine h get) ts s))"
  by (induction ts arbitrary: s) (auto simp: goroutine_def split: fetched.split)

lemma responses_fan_out:
  "responses (fan_out h get sched) =
     replicate 1024 None @ map Some (parsed_parts h get (sched (launch h)))"
  by (simp add: fan_out_def responses_fold_goroutine)

lemma entries_parsed_parts:
  "concat (parsed_parts h get ts) = concat (map (\<lambda>t. contribution (get (httpClientTimeout h) t)) ts)"
  by (induction ts) (auto simp: contribution_def parsed_parts_def split: fetched.split)

lemma entries_map_Some: "concat (map (case_option [] id) (map Some ps)) = concat ps"
  by (induction ps) auto

lemma merged_entries:
  "merge_responses (responses (fan_out h get sched)) =
     foldl merge_family []
       (concat (map (\<lambda>t. contribution (get (httpClientTimeout h) t)) (sched (launch h))))"
  using entries_map_Some [of "parsed_parts h get (sched (launch h))"]
  by (simp add: merge_responses_entries responses_fan_out entries_replicate_None
        entries_parsed_parts del: map_map)

lemma distinct_family_set: "distinct (map fst (family_set h get sched))"
  by (simp add: family_set_def Let_def keys_dedup_all merged_entries distinct_foldl_merge)

lemma launch_two_exporters:
  "launch two_exporters = [(0, ''http://a/metrics''), (Suc 0, ''http://b/metrics'')]"
  by (simp add: launch_def two_exporters_def enumerate_eq_zip upt_conv_Cons)

lemma launch_one_exporter: "launch one_exporter = [(0, ''http://a/metrics'')]"
  by (simp add: launch_def one_exporter_def enumerate_eq_zip upt_conv_Cons)

lemma launch_three_exporters:
  "launch three_exporters =
     [(0, ''http://a/metrics''), (Suc 0, ''http://b/metrics''), (Suc (Suc 0), ''http://c/metrics'')]"
  by (simp add: launch_def three_exporters_def enumerate_eq_zip upt_conv_Cons)

lemma family_set_entries:
  "family_set h get sched =
     (let mfs = foldl merge_family []
          (concat (map (\<lambda>t. contribution (get (httpClientTimeout h) t)) (sched (launch h))))
      in if Deduplicate h then dedup_all mfs else mfs)"
  by (simp add: family_set_def merged_entries)

lemma mset_concat_map_cong:
  "mset xs = mset ys \<Longrightarrow> mset (concat (map f xs)) = mset (concat (map f ys))"
proof -
  assume a: "mset xs = mset ys"
  have "\<And>zs. mset (concat (map f zs)) = (\<Sum>z\<in>#mset zs. mset (f z))"
    by (induct_tac zs) auto
  then show ?thesis using a by simp
qed

lemma mset_families_named:
  "mset es = mset es' \<Longrightarrow> mset (families_named n es) = mset (families_named n es')"
  by (simp add: families_named_def)

lemma mset_concat_Metric:
  "mset (concat (map Metric fs)) = (\<Sum>f\<in>#mset fs. mset (Metric f))"
  by (induction fs) auto

lemma lookup_merged_mset:
  "map_option (\<lambda>f. mset (Metric f)) (map_of (foldl merge_family [] es) n) =
     (if families_named n es = [] then None
      else Some (\<Sum>f\<in>#mset (families_named n es). mset (Metric f)))"
  using map_of_foldl_merge [of "[]" es n]
  by (simp add: mset_concat_Metric split: list.split)

lemma lookup_merged_sigs:
  "map_option (\<lambda>f. sig ` set (Metric f)) (map_of (foldl merge_family [] es) n) =
     (if families_named n es = [] then None
      else Some (\<Union>f\<in>set (families_named n es). sig ` set (Metric f)))"
  using map_of_foldl_merge [of "[]" es n] by (auto split: list.split)

lemma sigs_deduplicate: "sig ` set (Metric (deduplicateMetricFamily f)) = sig ` set (Metric f)"
  using dedup_loop_sigs [of "{}" "Metric f"] by (simp add: deduplicateMetricFamily_def)

lemma lookup_family_set_sigs:
  "map_option (\<lambda>f. sig ` set (Metric f)) (map_of (family_set h get sched) n) =
   map_option (\<lambda>f. sig ` set (Metric f))
     (map_of (foldl merge_family []
        (concat (map (\<lambda>t. contribution (get (httpClientTimeout h) t)) (sched (launch h))))) n)"
  by (simp add: family_set_entries Let_def map_of_dedup_all option.map_comp comp_def
        sigs_deduplicate)

lemma at_most_one_named:
  "distinct (map fst es) \<Longrightarrow> length (families_named n es) \<le> 1"
  by (induction es) (auto simp: families_named_def filter_empty_conv image_iff)

text \<open>
  Go ranges over a map in an order of its own choosing. The keys of a part are distinct,
  so whichever order the inner loop takes, the merged map is the same.
\<close>

lemma range_order_irrelevant:
  assumes "distinct (map fst part)" and "mset part' = mset part"
  shows "map_of (merge_part mfs (Some part')) n = map_of (merge_part mfs (Some part)) n"
proof -
  have "mset (map fst part') = mset (map fst part)"
    using assms(2) by simp
  then have d: "distinct (map fst part')"
    using assms(1) by (metis mset_eq_imp_distinct_iff)
  have m: "mset (families_named n part') = mset (families_named n part)"
    using assms(2) by (rule mset_families_named)
  have "families_named n part' = families_named n part"
  proof (cases "families_named n part")
    case Nil
    then show ?thesis using m by simp
  next
    case (Cons f fs)
    then have "fs = []" using at_most_one_named [OF assms(1), of n] by simp
    then have "mset (families_named n part') = {#f#}" using m Cons by simp
    then show ?thesis using Cons \<open>fs = []\<close> by simp
  qed
  then show ?thesis
    unfolding merge_part_def option.case map_of_foldl_merge by (rule arg_cong)
qed

section \<open>Properties of the emission\<close>

lemma encode_loop_recording:
  "encode_loop recording mfs w names = (None, w @ map (map_of mfs) names)"
  by (induction names arbitrary: w) (auto simp: recording_def)

lemma sort_distinct_keys:
  "distinct xs \<Longrightarrow> sort xs = sorted_list_of_set (set xs)"
  by (simp add: sorted_list_of_set_sort_remdups distinct_remdups_id)

lemma logs_Merge:
  "logs (Merge h get sched enc w) =
     logged (fan_out h get sched) @
       (case fst (encode_loop enc (family_set h get sched) w
                    (sorted_names (family_set h get sched))) of
          None \<Rightarrow> [] | Some err \<Rightarrow> [Encode_failed err])"
  by (simp add: Merge_def Let_def split: prod.split option.split)

section \<open>Properties of the fan-out\<close>

lemma parsed_parts_filter:
  "parsed_parts h get (filter (\<lambda>t. succeeded (get (httpClientTimeout h) t)) ts) = parsed_parts h get ts"
  by (induction ts) (auto simp: parsed_parts_def succeeded_def split: fetched.split)

lemma parsed_parts_none:
  "\<forall>t \<in> set ts. \<not> succeeded (get (httpClientTimeout h) t) \<Longrightarrow> parsed_parts h get ts = []"
  by (induction ts) (auto simp: parsed_parts_def succeeded_def split: fetched.splits)

lemma succeeded_parsed_response:
  "succeeded (parsed_response parse r) \<longleftrightarrow>
     (\<exists>status body part. r = Response status body \<and> parse body = Inr part)"
  by (cases r) (auto simp: parsed_response_def succeeded_def split: sum.splits)

lemma written_Merge:
  "written (Merge h get sched enc w) =
     snd (encode_loop enc (family_set h get sched) w (sorted_names (family_set h get sched)))"
  by (simp add: Merge_def Let_def split: prod.split option.split)

lemma family_set_parts:
  "family_set h get sched =
     (let mfs = merge_responses (map Some (parsed_parts h get (sched (launch h))))
      in if Deduplicate h then dedup_all mfs else mfs)"
  by (simp add: family_set_def responses_fan_out merge_responses_entries entries_replicate_None)

lemma lookup_merged_parts:
  "map_of (merge_responses (map Some parts)) n =
     (case families_named n (concat parts) of
        [] \<Rightarrow> None
      | f # fs \<Rightarrow> Some (f\<lparr>Metric := concat (map Metric (f # fs))\<rparr>))"
  using map_of_foldl_merge [of "[]" "concat parts" n] entries_map_Some [of parts]
  by (simp add: merge_responses_entries del: map_map split: list.split)

lemma lookup_family_set:
  "map_of (family_set h get sched) n =
     (case families_named n (concat (parsed_parts h get (sched (launch h)))) of
        [] \<Rightarrow> None
      | f # fs \<Rightarrow>
          Some (if Deduplicate h
                then deduplicateMetricFamily (f\<lparr>Metric := concat (map Metric (f # fs))\<rparr>)
                else f\<lparr>Metric := concat (map Metric (f # fs))\<rparr>))"
  unfolding family_set_parts Let_def
  by (simp add: map_of_dedup_all lookup_merged_parts split: list.split)

lemma no_Encode_failed_fan_out: "Encode_failed e \<notin> set (logged (fan_out h get sched))"
  unfolding fan_out_def by (rule logged_fold_goroutine) simp

section \<open>Properties of the encoding loop\<close>

lemma written_recording:
  "written (Merge h get sched recording []) =
     map (map_of (family_set h get sched)) (sorted_names (family_set h get sched))"
  by (simp add: written_Merge encode_loop_recording)

lemma encode_loop_abort:
  "encode_loop enc mfs w pre = (None, w1) \<Longrightarrow> enc w1 (map_of mfs n) = (Some err, w2) \<Longrightarrow>
   encode_loop enc mfs w (pre @ n # post) = (Some err, w2)"
proof (induction pre arbitrary: w)
  case Nil
  then show ?case by simp
next
  case (Cons k ks)
  then show ?case by (auto split: prod.splits option.splits)
qed

text \<open>
  What the encoder accepts can follow completion order: the type of a merged family is
  the first-seen one, and after deduplication the series of a signature is the first-seen
  one. When the gauge arrives first the family \<^verbatim>\<open>foo\<close> is a gauge of gauges and all is
  written; when the counter arrives first it is a counter holding a gauge, the encoder
  rejects it and nothing is written.
\<close>

lemma sig_kind_series: "sig (kind_series k i) = ''instance='' @ i"
  by (simp add: kind_series_def labelSignature_def Sprintf_eq_def GetName_def GetValue_def GetLabel_def)

lemma kind_checking_encoder_follows_completion_order:
  "Merge two_exporters gauge_and_counter id kind_checking [] =
     \<lparr>written = [Some (family_of ''foo'' GAUGE [kind_series GAUGE ''a'', kind_series GAUGE ''b'']),
                 Some (family_of ''zzz'' GAUGE [kind_series GAUGE ''a''])],
      logs = []\<rparr>
   \<and> Merge two_exporters gauge_and_counter rev kind_checking [] =
     \<lparr>written = [], logs = [Encode_failed ''expected a metric of the type of the family'']\<rparr>"
proof -
  have d: "Deduplicate two_exporters" by (simp add: two_exporters_def)
  have ne: "kind_series COUNTER ''a'' \<noteq> kind_series GAUGE ''a''" by (simp add: kind_series_def)
  have f1: "family_set two_exporters gauge_and_counter id =
      [(''foo'', family_of ''foo'' GAUGE [kind_series GAUGE ''a'', kind_series GAUGE ''b'']),
       (''zzz'', family_of ''zzz'' GAUGE [kind_series GAUGE ''a''])]"
    by (simp add: family_set_entries launch_two_exporters d gauge_and_counter_def contribution_def
          dedup_all_def deduplicateMetricFamily_def family_of_def sig_kind_series)
  have f2: "family_set two_exporters gauge_and_counter rev =
      [(''foo'', family_of ''foo'' COUNTER [kind_series COUNTER ''a'', kind_series GAUGE ''b'']),
       (''zzz'', family_of ''zzz'' GAUGE [kind_series GAUGE ''a''])]"
    by (simp add: family_set_entries launch_two_exporters d gauge_and_counter_def contribution_def
          dedup_all_def deduplicateMetricFamily_def family_of_def sig_kind_series)
  have g: "logged (fan_out two_exporters gauge_and_counter id) = []"
      "logged (fan_out two_exporters gauge_and_counter rev) = []"
    by (simp_all add: fan_out_def launch_two_exporters goroutine_def gauge_and_counter_def)
  show ?thesis
    by (simp add: Merge_def f1 f2 g sorted_names_def kind_checking_def family_of_def
          kind_series_def)
qed

section \<open>The timeout in nanoseconds\<close>




section \<open>The claims about deduplication\<close>



text \<open>
  C8. Deduplication is idempotent, for one family and for a family set: a second pass
  changes nothing.
\<close>

theorem deduplication_idempotent:
  "deduplicateMetricFamily (deduplicateMetricFamily mf) = deduplicateMetricFamily mf
   \<and> dedup_all (dedup_all mfs) = dedup_all mfs"
proof -
  have "dedup_all (dedup_all mfs) = dedup_all mfs"
    by (induction mfs) (auto simp: dedup_all_def dedup_family_fixed)
  then show ?thesis by (simp add: dedup_family_fixed)
qed

text \<open>
  C10. \<^verbatim>\<open>labelSignature\<close> is not injective on label sets: the label set \<^verbatim>\<open>{a="1,b=2"}\<close> and the
  label set \<^verbatim>\<open>{a="1", b="2"}\<close> both have the signature \<^verbatim>\<open>a=1,b=2\<close>, and a family holding the
  two series loses the second one to deduplication.
\<close>

theorem labelSignature_not_injective:
  "set (GetLabel comma_series) \<noteq> set (GetLabel plain_series)
   \<and> labelSignature (GetLabel comma_series) = labelSignature (GetLabel plain_series)
   \<and> Metric (deduplicateMetricFamily (gauge ''up'' [comma_series, plain_series])) = [comma_series]"
proof -
  have "set (GetLabel comma_series) \<noteq> set (GetLabel plain_series)"
    by (simp add: comma_series_def plain_series_def GetLabel_def)
  then show ?thesis
    by (simp add: comma_plain_signature deduplicateMetricFamily_def gauge_def)
qed

section \<open>The claims about merging and emission\<close>

text \<open>
  C3. Merging one entry \<open>(n, mf)\<close> into \<^verbatim>\<open>mfs\<close>: when \<open>n\<close> is not yet a key, \<open>mf\<close> is stored
  as it is; when \<open>n\<close> is already bound to \<open>mfo\<close>, the binding becomes \<open>mfo\<close> with the series
  of \<open>mf\<close> appended to its own, so name, help and type stay those of \<open>mfo\<close> and nothing else
  of \<open>mf\<close> is read. Over a whole sequence of parts, the family under \<open>n\<close> is the first
  family seen under \<open>n\<close>, with the series lists of all families seen under \<open>n\<close> concatenated
  in the order seen. The merge has no error result and writes no log line: the log of
  \<^verbatim>\<open>Merge\<close> is the log of the fetches followed by at most one line of the encoder.
\<close>

theorem merge_appends_to_first_seen:
  "map_of (merge_family mfs (n, mf)) =
     (map_of mfs)(n \<mapsto> (case map_of mfs n of None \<Rightarrow> mf
                              | Some mfo \<Rightarrow> mfo\<lparr>Metric := Metric mfo @ Metric mf\<rparr>))
   \<and> map_of (merge_responses (map Some parts)) n =
       (case families_named n (concat parts) of
          [] \<Rightarrow> None
        | f # fs \<Rightarrow> Some (f\<lparr>Metric := concat (map Metric (f # fs))\<rparr>))
   \<and> logs (Merge h get sched enc w) =
       logged (fan_out h get sched) @
         (case fst (encode_loop enc (family_set h get sched) w
                      (sorted_names (family_set h get sched))) of
            None \<Rightarrow> [] | Some err \<Rightarrow> [Encode_failed err])"
proof -
  have "map_of (merge_responses (map Some parts)) n =
       (case families_named n (concat parts) of
          [] \<Rightarrow> None
        | f # fs \<Rightarrow> Some (f\<lparr>Metric := concat (map Metric (f # fs))\<rparr>))"
    using map_of_foldl_merge [of "[]" "concat parts" n] entries_map_Some [of parts]
    by (simp add: merge_responses_entries del: map_map split: list.split)
  then show ?thesis
    using map_of_merge_family [of mfs n mf] logs_Merge [of h get sched enc w] by blast
qed

text \<open>
  C9. \<^verbatim>\<open>responses\<close> starts as 1024 nil maps and every successful goroutine appends its part
  behind them. Ranging over a nil map does nothing, so the 1024 entries can be dropped
  from any list of responses without changing the merge, and the merged family set is the
  merge of the appended parts alone, however many there are.
\<close>

theorem presized_nil_entries_contribute_nothing:
  "responses (fan_out h get sched) =
     replicate 1024 None @ map Some (parsed_parts h get (sched (launch h)))
   \<and> length (responses (fan_out h get sched)) =
       1024 + length (parsed_parts h get (sched (launch h)))
   \<and> merge_responses (replicate 1024 None @ rs) = merge_responses rs
   \<and> merge_responses (responses (fan_out h get sched)) =
       merge_responses (map Some (parsed_parts h get (sched (launch h))))"
  by (simp add: responses_fan_out merge_responses_entries entries_replicate_None)

text \<open>
  C6. The names handed to the encoder are the keys of the family set in strictly ascending
  order; the list is a function of the set of keys alone, so neither merge order nor
  fetch order shows in it. The encoder receives, name by name, the very family stored
  under that name (never nil), with its series list as the merge and the deduplication
  left it.
\<close>

theorem families_emitted_in_name_order:
  "sorted_wrt (<) (sorted_names (family_set h get sched))
   \<and> set (sorted_names (family_set h get sched)) = fst ` set (family_set h get sched)
   \<and> sorted_names (family_set h get sched) =
       sorted_list_of_set (fst ` set (family_set h get sched))
   \<and> written (Merge h get sched recording []) =
       map (map_of (family_set h get sched)) (sorted_names (family_set h get sched))
   \<and> None \<notin> set (written (Merge h get sched recording []))"
proof -
  let ?mfs = "family_set h get sched"
  have d: "distinct (map fst ?mfs)" by (rule distinct_family_set)
  have c1: "sorted_wrt (<) (sorted_names ?mfs)"
    using d by (simp add: sorted_names_def strict_sorted_iff)
  have c2: "set (sorted_names ?mfs) = fst ` set ?mfs"
    by (simp add: sorted_names_def)
  have c3: "sorted_names ?mfs = sorted_list_of_set (fst ` set ?mfs)"
    using sort_distinct_keys [OF d] by (simp add: sorted_names_def)
  have c4: "written (Merge h get sched recording []) = map (map_of ?mfs) (sorted_names ?mfs)"
    by (simp add: Merge_def Let_def encode_loop_recording)
  have c5: "None \<notin> set (written (Merge h get sched recording []))"
  proof
    assume "None \<in> set (written (Merge h get sched recording []))"
    then obtain k where k: "k \<in> set (sorted_names ?mfs)" "map_of ?mfs k = None"
      unfolding c4 by auto
    from k(1) have "k \<in> fst ` set ?mfs" using c2 by simp
    with k(2) show False by (simp add: map_of_eq_None_iff)
  qed
  show ?thesis using c1 c2 c3 c4 c5 by blast
qed

section \<open>The claims about failing sources\<close>

text \<open>
  C5, as stated, fails for one of the failures the specification counts as a fetch
  failure: a response with a status other than 2xx. \<^verbatim>\<open>Merge\<close> never reads the status, so the
  body of such a response is parsed and merged like any other. Below, the second exporter
  answers 500 with the body \<^verbatim>\<open>up 0\<close>, and the family \<^verbatim>\<open>up\<close> is written.
\<close>

theorem non_2xx_body_is_merged_counterexample:
  "second_answers_500 (httpClientTimeout two_exporters) (1, ''http://b/metrics'') = Response 500 up_body
   \<and> Merge two_exporters (fetch_and_parse reads second_answers_500) id recording [] =
       \<lparr>written = [Some up_untyped],
        logs = [HTTP_connection_failed ''http://a/metrics'' ''connection refused'']\<rparr>"
proof -
  have d: "Deduplicate two_exporters" by (simp add: two_exporters_def)
  have s: "sig \<lparr>Label = [], Sample = 0::nat\<rparr> = []"
    by (simp add: labelSignature_def GetLabel_def)
  have f: "family_set two_exporters (fetch_and_parse reads second_answers_500) id =
      [(''up'', up_untyped)]"
    by (simp add: family_set_entries launch_two_exporters d fetch_and_parse_def
          second_answers_500_def parsed_response_def reads_def contribution_def dedup_all_def
          deduplicateMetricFamily_def up_untyped_def s)
  have g: "logged (fan_out two_exporters (fetch_and_parse reads second_answers_500) id) =
      [HTTP_connection_failed ''http://a/metrics'' ''connection refused'']"
    by (simp add: fan_out_def launch_two_exporters goroutine_def fetch_and_parse_def
          second_answers_500_def parsed_response_def reads_def)
  show ?thesis
    by (simp add: Merge_def f g sorted_names_def recording_def second_answers_500_def)
qed

text \<open>
  C5, amended. The failures of a source are an error of the GET and an error of the
  parse; the status of a response is not one of them: the outcome of a response is the
  same whatever its status, and \<^verbatim>\<open>Merge\<close> does what it does in a world where every response
  has status 200. A goroutine whose GET or parse fails returns before the
  append, so it adds no families: the family set and everything written are what they
  would be had the failed goroutines never run. When every source fails the family set is
  empty, the encoder is never called, the writer is left as it was (an empty document),
  and the log holds the fetch failures but no encoder error; with no exporters configured
  the log is empty too. \<^verbatim>\<open>Merge\<close> has no error result in either case.
\<close>

theorem only_GET_and_parse_errors_contribute_nothing:
  assumes "fair h sched"
  shows "family_set h get sched =
           family_set h get (\<lambda>ts. filter (\<lambda>t. succeeded (get (httpClientTimeout h) t)) (sched ts))
       \<and> written (Merge h get sched enc w) =
           written (Merge h get (\<lambda>ts. filter (\<lambda>t. succeeded (get (httpClientTimeout h) t)) (sched ts)) enc w)
       \<and> ((\<forall>t \<in> set (launch h). \<not> succeeded (get (httpClientTimeout h) t)) \<longrightarrow>
            family_set h get sched = []
            \<and> Merge h get sched enc w = \<lparr>written = w, logs = logged (fan_out h get sched)\<rparr>
            \<and> Encode_failed e \<notin> set (logs (Merge h get sched enc w)))
       \<and> (Exporters h = [] \<longrightarrow> Merge h get sched enc w = \<lparr>written = w, logs = []\<rparr>)
       \<and> (succeeded (fetch_and_parse parse http T t) \<longleftrightarrow>
            (\<exists>status body part. http T t = Response status body \<and> parse body = Inr part))
       \<and> parsed_response parse (Response status body) = parsed_response parse (Response 200 body)
       \<and> Merge h (fetch_and_parse parse http) sched enc w =
           Merge h (fetch_and_parse parse
                      (\<lambda>T t. case http T t of Get_error err \<Rightarrow> Get_error err
                                | Response status body \<Rightarrow> Response 200 body)) sched enc w"
proof -
  let ?ok = "\<lambda>ts. filter (\<lambda>t. succeeded (get (httpClientTimeout h) t)) (sched ts)"
  have c1: "family_set h get sched = family_set h get ?ok"
    by (simp add: family_set_parts parsed_parts_filter)
  have c2: "written (Merge h get sched enc w) = written (Merge h get ?ok enc w)"
    by (simp add: written_Merge c1 [symmetric])
  have s: "set (sched (launch h)) = set (launch h)"
    using assms by (auto simp: fair_def dest: mset_eq_setD)
  have c3: "family_set h get sched = []
      \<and> Merge h get sched enc w = \<lparr>written = w, logs = logged (fan_out h get sched)\<rparr>
      \<and> Encode_failed e \<notin> set (logs (Merge h get sched enc w))"
    if "\<forall>t \<in> set (launch h). \<not> succeeded (get (httpClientTimeout h) t)"
  proof -
    have "parsed_parts h get (sched (launch h)) = []"
      using that s by (intro parsed_parts_none) simp
    then have e: "family_set h get sched = []"
      by (simp add: family_set_parts merge_responses_def dedup_all_def)
    then have m: "Merge h get sched enc w = \<lparr>written = w, logs = logged (fan_out h get sched)\<rparr>"
      by (simp add: Merge_def sorted_names_def)
    show ?thesis using e m no_Encode_failed_fan_out [of e h get sched] by simp
  qed
  have c4: "Merge h get sched enc w = \<lparr>written = w, logs = []\<rparr>" if "Exporters h = []"
  proof -
    have l: "launch h = []" using that by (simp add: launch_def)
    then have "sched (launch h) = []" using assms by (simp add: fair_def)
    then have "logged (fan_out h get sched) = []" by (simp add: fan_out_def)
    then show ?thesis using c3 l by simp
  qed
  have c5: "succeeded (fetch_and_parse parse http T t) \<longleftrightarrow>
            (\<exists>status body part. http T t = Response status body \<and> parse body = Inr part)"
    by (simp add: fetch_and_parse_def succeeded_parsed_response)
  have c6: "parsed_response parse (Response status body) = parsed_response parse (Response 200 body)"
    by (simp add: parsed_response_def)
  have "fetch_and_parse parse
          (\<lambda>T t. case http T t of Get_error err \<Rightarrow> Get_error err
                    | Response status body \<Rightarrow> Response 200 body) =
        fetch_and_parse parse http"
    by (intro ext) (simp add: fetch_and_parse_def parsed_response_def split: response.split)
  then have c7: "Merge h (fetch_and_parse parse http) sched enc w =
           Merge h (fetch_and_parse parse
                      (\<lambda>T t. case http T t of Get_error err \<Rightarrow> Get_error err
                                | Response status body \<Rightarrow> Response 200 body)) sched enc w"
    by simp
  show ?thesis
    by (intro conjI impI, rule c1, rule c2, (rule c3 [THEN conjunct1], assumption),
        (rule c3 [THEN conjunct2, THEN conjunct1], assumption),
        (rule c3 [THEN conjunct2, THEN conjunct2], assumption), (rule c4, assumption),
        rule c5, rule c6, rule c7)
qed

text \<open>
  Three exporters of which the second refuses the connection, finishing in reverse order:
  the families of the first and the third are written and the failure is logged. Two
  exporters, one refusing the connection and one sending a garbled body, finishing in
  reverse order; and no exporters at all.
\<close>

theorem only_GET_and_parse_errors_contribute_nothing_witness:
  "Merge three_exporters middle_down rev recording [] =
     \<lparr>written = [Some (gauge ''bar'' [series ''c'' 2]), Some (gauge ''foo'' [series ''a'' 1])],
      logs = [HTTP_connection_failed ''http://b/metrics'' ''connection refused'']\<rparr>
   \<and> Merge two_exporters both_down rev recording [] =
     \<lparr>written = [],
      logs = [Parse_response_failed ''http://b/metrics'' ''unexpected end of input'',
              HTTP_connection_failed ''http://a/metrics'' ''connection refused'']\<rparr>
   \<and> Merge no_exporters both_down id recording [] = \<lparr>written = [], logs = []\<rparr>"
proof -
  let ?ok = "\<lambda>ts. filter (\<lambda>t. succeeded (middle_down (httpClientTimeout three_exporters) t)) (rev ts)"
  have f3: "fair three_exporters rev" by (simp add: fair_def)
  have f1: "fair two_exporters rev" by (simp add: fair_def)
  have f2: "fair no_exporters id" by (simp add: fair_def)
  note t3 = only_GET_and_parse_errors_contribute_nothing
    [OF f3, where get = middle_down and enc = recording and w = "[]"]
  note t1 = only_GET_and_parse_errors_contribute_nothing
    [OF f1, where get = both_down and enc = recording and w = "[]"]
  note t2 = only_GET_and_parse_errors_contribute_nothing
    [OF f2, where get = both_down and enc = recording and w = "[]"]
  have d3: "\<not> Deduplicate three_exporters" by (simp add: three_exporters_def)
  have w3: "written (Merge three_exporters middle_down rev recording []) =
      written (Merge three_exporters middle_down ?ok recording [])"
    by (rule t3 [THEN conjunct2, THEN conjunct1])
  have k3: "family_set three_exporters middle_down ?ok =
      [(''bar'', gauge ''bar'' [series ''c'' 2]), (''foo'', gauge ''foo'' [series ''a'' 1])]"
    by (simp add: family_set_entries launch_three_exporters d3 middle_down_def succeeded_def
          contribution_def)
  have r3: "written (Merge three_exporters middle_down rev recording []) =
      [Some (gauge ''bar'' [series ''c'' 2]), Some (gauge ''foo'' [series ''a'' 1])]"
    unfolding w3 by (simp add: written_recording k3 sorted_names_def)
  have g3: "logs (Merge three_exporters middle_down rev recording []) =
      [HTTP_connection_failed ''http://b/metrics'' ''connection refused'']"
    by (simp add: logs_Merge encode_loop_recording fan_out_def launch_three_exporters
          goroutine_def middle_down_def)
  have m3: "Merge three_exporters middle_down rev recording [] =
     \<lparr>written = [Some (gauge ''bar'' [series ''c'' 2]), Some (gauge ''foo'' [series ''a'' 1])],
      logs = [HTTP_connection_failed ''http://b/metrics'' ''connection refused'']\<rparr>"
    using r3 g3 by (cases "Merge three_exporters middle_down rev recording []") simp
  have d: "\<forall>t \<in> set (launch two_exporters). \<not> succeeded (both_down (httpClientTimeout two_exporters) t)"
    by (simp add: launch_two_exporters both_down_def succeeded_def)
  have g: "logged (fan_out two_exporters both_down rev) =
      [Parse_response_failed ''http://b/metrics'' ''unexpected end of input'',
       HTTP_connection_failed ''http://a/metrics'' ''connection refused'']"
    by (simp add: fan_out_def launch_two_exporters goroutine_def both_down_def)
  have m1: "Merge two_exporters both_down rev recording [] =
      \<lparr>written = [], logs = logged (fan_out two_exporters both_down rev)\<rparr>"
    by (rule t1 [THEN conjunct2, THEN conjunct2, THEN conjunct1, THEN mp, OF d,
                 THEN conjunct2, THEN conjunct1])
  have n: "Exporters no_exporters = []" by (simp add: no_exporters_def)
  have m2: "Merge no_exporters both_down id recording [] = \<lparr>written = [], logs = []\<rparr>"
    by (rule t2 [THEN conjunct2, THEN conjunct2, THEN conjunct2, THEN conjunct1, rule_format, OF n])
  show ?thesis
    unfolding m3 m1 m2 g by simp
qed

section \<open>The claims about completion order, encoder errors and the timeout\<close>

text \<open>
  C1, as stated, fails. Each goroutine appends its part to \<^verbatim>\<open>responses\<close> when its own fetch and
  parse are done, so the merge reads the parts in completion order, not in the order the
  fetches were started. Two exporters expose \<^verbatim>\<open>up{instance="a"}\<close>, the first with sample 1,
  the second with sample 0, and deduplication is on: when the first finishes first the
  output holds the sample 1, when the second finishes first it holds the sample 0.
\<close>

theorem completion_order_shows_counterexample:
  "fair two_exporters id \<and> fair two_exporters rev
   \<and> written (Merge two_exporters both_up id recording []) = [Some (gauge ''up'' [series ''a'' 1])]
   \<and> written (Merge two_exporters both_up rev recording []) = [Some (gauge ''up'' [series ''a'' 0])]
   \<and> written (Merge two_exporters both_up id recording []) \<noteq>
       written (Merge two_exporters both_up rev recording [])"
proof -
  have d: "Deduplicate two_exporters" by (simp add: two_exporters_def)
  have f1: "family_set two_exporters both_up id = [(''up'', gauge ''up'' [series ''a'' 1])]"
    by (simp add: family_set_entries launch_two_exporters d both_up_def contribution_def
          dedup_all_def deduplicateMetricFamily_def gauge_def sig_series)
  have f2: "family_set two_exporters both_up rev = [(''up'', gauge ''up'' [series ''a'' 0])]"
    by (simp add: family_set_entries launch_two_exporters d both_up_def contribution_def
          dedup_all_def deduplicateMetricFamily_def gauge_def sig_series)
  have ne: "series ''a'' 1 \<noteq> series ''a'' 0" by (simp add: series_def)
  show ?thesis
    using ne by (simp add: written_recording f1 f2 sorted_names_def fair_def gauge_def)
qed

text \<open>
  C1, amended. The parts are merged in completion order. Two runs that differ only in
  completion order build family sets with the same names, so the encoder is called along
  the same ascending list of names in both; under each name the two family sets hold the
  same set of label signatures, and with deduplication off the same multiset of series.
  An encoder that accepts every family is therefore given, position by position, families
  with the same signatures (the same series, with deduplication off). What follows
  completion order is the family itself: under each name it is the family that arrived
  first under that name, so with its help and type, holding the series of all families of
  that name in order of arrival, deduplicated when deduplication is on, so that of several
  series of one signature the one that arrived first survives. In general a run writes
  what the encoding loop writes along the shared list of names on its own families.
\<close>

theorem completion_order_permutes_series_only:
  assumes "fair h s1" and "fair h s2"
  shows "merge_responses (responses (fan_out h get s1)) =
           merge_responses (map Some (parsed_parts h get (s1 (launch h))))
     \<and> sorted_names (family_set h get s1) = sorted_names (family_set h get s2)
     \<and> map_option (\<lambda>f. sig ` set (Metric f)) (map_of (family_set h get s1) n) =
         map_option (\<lambda>f. sig ` set (Metric f)) (map_of (family_set h get s2) n)
     \<and> (\<not> Deduplicate h \<longrightarrow>
          map_option (\<lambda>f. mset (Metric f)) (map_of (family_set h get s1) n) =
          map_option (\<lambda>f. mset (Metric f)) (map_of (family_set h get s2) n))
     \<and> written (Merge h get s1 enc w) =
         snd (encode_loop enc (family_set h get s1) w (sorted_names (family_set h get s2)))
     \<and> map (map_option (\<lambda>f. sig ` set (Metric f))) (written (Merge h get s1 recording [])) =
         map (map_option (\<lambda>f. sig ` set (Metric f))) (written (Merge h get s2 recording []))
     \<and> (\<not> Deduplicate h \<longrightarrow>
          map (map_option (\<lambda>f. mset (Metric f))) (written (Merge h get s1 recording [])) =
          map (map_option (\<lambda>f. mset (Metric f))) (written (Merge h get s2 recording [])))
     \<and> map_of (family_set h get s1) n =
         (case families_named n (concat (parsed_parts h get (s1 (launch h)))) of
            [] \<Rightarrow> None
          | f # fs \<Rightarrow>
              Some (if Deduplicate h
                    then deduplicateMetricFamily (f\<lparr>Metric := concat (map Metric (f # fs))\<rparr>)
                    else f\<lparr>Metric := concat (map Metric (f # fs))\<rparr>))"
proof -
  let ?es = "\<lambda>s. concat (map (\<lambda>t. contribution (get (httpClientTimeout h) t)) (s (launch h)))"
  have "mset (s1 (launch h)) = mset (s2 (launch h))"
    using assms by (simp add: fair_def)
  then have es: "mset (?es s1) = mset (?es s2)"
    by (rule mset_concat_map_cong)
  then have ses: "set (?es s1) = set (?es s2)"
    by (rule mset_eq_setD)
  have fn: "mset (families_named k (?es s1)) = mset (families_named k (?es s2))" for k
    using es by (rule mset_families_named)
  then have fs: "set (families_named k (?es s1)) = set (families_named k (?es s2))" for k
    by (rule mset_eq_setD)
  have fe: "families_named k (?es s1) = [] \<longleftrightarrow> families_named k (?es s2) = []" for k
    using fn [of k] by (metis mset_zero_iff)
  have keys: "\<And>s. fst ` set (family_set h get s) = fst ` set (?es s)"
    by (simp add: family_set_entries Let_def keys_dedup_all [THEN arg_cong, of set, simplified]
          keys_foldl_merge)
  have c1: "sorted_names (family_set h get s1) = sorted_names (family_set h get s2)"
    unfolding sorted_names_def
    using sort_distinct_keys [OF distinct_family_set [of h get s1]]
          sort_distinct_keys [OF distinct_family_set [of h get s2]] keys ses
    by simp
  have c2: "map_option (\<lambda>f. sig ` set (Metric f)) (map_of (family_set h get s1) k) =
         map_option (\<lambda>f. sig ` set (Metric f)) (map_of (family_set h get s2) k)" for k
    unfolding lookup_family_set_sigs lookup_merged_sigs using fs [of k] fe [of k] by simp
  have c3: "map_option (\<lambda>f. mset (Metric f)) (map_of (family_set h get s1) k) =
          map_option (\<lambda>f. mset (Metric f)) (map_of (family_set h get s2) k)"
    if "\<not> Deduplicate h" for k
    using that fn [of k] fe [of k] by (simp add: family_set_entries lookup_merged_mset)
  have c0: "merge_responses (responses (fan_out h get s1)) =
           merge_responses (map Some (parsed_parts h get (s1 (launch h))))"
    by (simp add: responses_fan_out merge_responses_entries entries_replicate_None)
  have c4: "written (Merge h get s1 enc w) =
         snd (encode_loop enc (family_set h get s1) w (sorted_names (family_set h get s2)))"
    by (simp only: written_Merge c1)
  have c5: "map (map_option (\<lambda>f. sig ` set (Metric f))) (written (Merge h get s1 recording [])) =
         map (map_option (\<lambda>f. sig ` set (Metric f))) (written (Merge h get s2 recording []))"
    by (simp add: written_recording c1 c2)
  have c6: "map (map_option (\<lambda>f. mset (Metric f))) (written (Merge h get s1 recording [])) =
          map (map_option (\<lambda>f. mset (Metric f))) (written (Merge h get s2 recording []))"
    if "\<not> Deduplicate h"
    by (simp add: written_recording c1 c3 [OF that])
  show ?thesis
    by (intro conjI impI, rule c0, rule c1, rule c2, (rule c3, assumption), rule c4, rule c5,
        (rule c6, assumption), rule lookup_family_set)
qed

text \<open>The two exporters above with deduplication off, finishing in either order.\<close>

theorem completion_order_permutes_series_only_witness:
  "written (Merge (two_exporters\<lparr>Deduplicate := False\<rparr>) both_up id recording []) =
     [Some (gauge ''up'' [series ''a'' 1, series ''a'' 0])]
   \<and> written (Merge (two_exporters\<lparr>Deduplicate := False\<rparr>) both_up rev recording []) =
     [Some (gauge ''up'' [series ''a'' 0, series ''a'' 1])]
   \<and> map (map_option (\<lambda>f. mset (Metric f)))
       (written (Merge (two_exporters\<lparr>Deduplicate := False\<rparr>) both_up rev recording []))
       = [Some {#series ''a'' 1, series ''a'' 0#}]
   \<and> sorted_names (family_set (two_exporters\<lparr>Deduplicate := False\<rparr>) both_up rev) = [''up'']
   \<and> map_of (family_set (two_exporters\<lparr>Deduplicate := False\<rparr>) both_up rev) ''up'' =
       Some (gauge ''up'' [series ''a'' 0, series ''a'' 1])"
proof -
  let ?h = "two_exporters\<lparr>Deduplicate := False\<rparr>"
  have l: "launch ?h = [(0, ''http://a/metrics''), (Suc 0, ''http://b/metrics'')]"
    by (simp add: launch_def two_exporters_def enumerate_eq_zip upt_conv_Cons)
  have f1: "fair ?h id" and f2: "fair ?h rev" by (simp_all add: fair_def)
  have d: "\<not> Deduplicate ?h" by simp
  note t = completion_order_permutes_series_only
    [OF f2 f1, where get = both_up and enc = recording and w = "[]"]
  have i: "family_set ?h both_up id = [(''up'', gauge ''up'' [series ''a'' 1, series ''a'' 0])]"
    by (simp add: family_set_entries l both_up_def contribution_def gauge_def)
  have r: "family_set ?h both_up rev = [(''up'', gauge ''up'' [series ''a'' 0, series ''a'' 1])]"
    by (simp add: family_set_entries l both_up_def contribution_def gauge_def)
  have wi: "written (Merge ?h both_up id recording []) =
      [Some (gauge ''up'' [series ''a'' 1, series ''a'' 0])]"
    by (simp add: written_recording i sorted_names_def)
  have n: "sorted_names (family_set ?h both_up rev) = sorted_names (family_set ?h both_up id)"
    by (rule t [THEN conjunct2, THEN conjunct1])
  have wr: "written (Merge ?h both_up rev recording []) =
      snd (encode_loop recording (family_set ?h both_up rev) [] (sorted_names (family_set ?h both_up id)))"
    by (rule t [THEN conjunct2, THEN conjunct2, THEN conjunct2, THEN conjunct2, THEN conjunct1])
  have m: "map (map_option (\<lambda>f. mset (Metric f))) (written (Merge ?h both_up rev recording [])) =
      map (map_option (\<lambda>f. mset (Metric f))) (written (Merge ?h both_up id recording []))"
    by (rule t [THEN conjunct2, THEN conjunct2, THEN conjunct2, THEN conjunct2, THEN conjunct2,
                THEN conjunct2, THEN conjunct1, THEN mp, OF d])
  have p: "parsed_parts ?h both_up (rev (launch ?h)) =
      [[(''up'', gauge ''up'' [series ''a'' 0])], [(''up'', gauge ''up'' [series ''a'' 1])]]"
    by (simp add: parsed_parts_def l both_up_def)
  have "map_of (family_set ?h both_up rev) ''up'' =
      (case families_named ''up'' (concat (parsed_parts ?h both_up (rev (launch ?h)))) of
         [] \<Rightarrow> None
       | f # fs \<Rightarrow>
           Some (if Deduplicate ?h
                 then deduplicateMetricFamily (f\<lparr>Metric := concat (map Metric (f # fs))\<rparr>)
                 else f\<lparr>Metric := concat (map Metric (f # fs))\<rparr>))"
    by (rule t [THEN conjunct2, THEN conjunct2, THEN conjunct2, THEN conjunct2, THEN conjunct2,
                THEN conjunct2, THEN conjunct2])
  then have e: "map_of (family_set ?h both_up rev) ''up'' =
      Some (gauge ''up'' [series ''a'' 0, series ''a'' 1])"
    unfolding p by (simp add: families_named_def gauge_def)
  have a: "written (Merge ?h both_up rev recording []) =
      [Some (gauge ''up'' [series ''a'' 0, series ''a'' 1])]"
    unfolding wr encode_loop_recording by (simp add: i r sorted_names_def)
  have b: "map (map_option (\<lambda>f. mset (Metric f))) (written (Merge ?h both_up rev recording []))
       = [Some {#series ''a'' 1, series ''a'' 0#}]"
    unfolding m wi by (simp add: gauge_def)
  have c: "sorted_names (family_set ?h both_up rev) = [''up'']"
    unfolding n by (simp add: i sorted_names_def)
  show ?thesis using wi a b c e by simp
qed

text \<open>
  C7, as stated, fails in its first part. \<^verbatim>\<open>Merge\<close> has no result value; on an encoder
  error it calls \<^verbatim>\<open>log.Error\<close> and returns. A caller holds nothing but its writer: below,
  a writer that takes one family and then breaks is left in the same state by a run that
  hit the error (two families to emit) and by a run that did not (one family); only the
  log tells them apart.
\<close>

theorem encode_error_logged_not_returned_counterexample:
  "written (Merge one_exporter exposes_a_b id closing_after ([], 1)) = ([''a''], 0)
   \<and> logs (Merge one_exporter exposes_a_b id closing_after ([], 1)) =
       [Encode_failed ''write: broken pipe'']
   \<and> written (Merge one_exporter exposes_a id closing_after ([], 1)) = ([''a''], 0)
   \<and> logs (Merge one_exporter exposes_a id closing_after ([], 1)) = []"
proof -
  have d: "\<not> Deduplicate one_exporter" by (simp add: one_exporter_def)
  have f1: "family_set one_exporter exposes_a_b id =
      [(''b'', gauge ''b'' [series ''x'' 2]), (''a'', gauge ''a'' [series ''x'' 1])]"
    by (simp add: family_set_entries launch_one_exporter d exposes_a_b_def contribution_def)
  have f2: "family_set one_exporter exposes_a id = [(''a'', gauge ''a'' [series ''x'' 1])]"
    by (simp add: family_set_entries launch_one_exporter d exposes_a_def contribution_def)
  have g1: "logged (fan_out one_exporter exposes_a_b id) = []"
    by (simp add: fan_out_def launch_one_exporter goroutine_def exposes_a_b_def)
  have g2: "logged (fan_out one_exporter exposes_a id) = []"
    by (simp add: fan_out_def launch_one_exporter goroutine_def exposes_a_def)
  show ?thesis
    by (simp add: Merge_def f1 f2 g1 g2 sorted_names_def closing_after_def gauge_def)
qed

text \<open>
  C7, amended. When the encoder fails on a family, after the families before it in name
  order were encoded, \<^verbatim>\<open>Merge\<close> logs that error once and ends: the writer is left exactly as
  the failing call left it, whatever was written before included, and the result does not
  depend on the names that follow, which are never encoded. No call is repeated. The
  error is logged, not returned. (With an encoder whose writer state is the list of the
  calls made, the statement reads: the calls made are those for the names up to the
  failing one, once each.)
\<close>

theorem encode_error_aborts_emission:
  assumes "sorted_names (family_set h get sched) = pre @ n # post"
    and "encode_loop enc (family_set h get sched) w pre = (None, w1)"
    and "enc w1 (map_of (family_set h get sched) n) = (Some err, w2)"
  shows "Merge h get sched enc w =
           \<lparr>written = w2, logs = logged (fan_out h get sched) @ [Encode_failed err]\<rparr>"
  using encode_loop_abort [OF assms(2) assms(3), of post] assms(1)
  by (simp add: Merge_def)

text \<open>A writer that is already closed: the first family fails and the second is not tried.\<close>

theorem encode_error_aborts_emission_witness:
  "Merge one_exporter exposes_a_b id closing_after ([], 0) =
     \<lparr>written = ([], 0), logs = [Encode_failed ''write: broken pipe'']\<rparr>"
proof -
  have d: "\<not> Deduplicate one_exporter" by (simp add: one_exporter_def)
  have f1: "family_set one_exporter exposes_a_b id =
      [(''b'', gauge ''b'' [series ''x'' 2]), (''a'', gauge ''a'' [series ''x'' 1])]"
    by (simp add: family_set_entries launch_one_exporter d exposes_a_b_def contribution_def)
  have n: "sorted_names (family_set one_exporter exposes_a_b id) = [] @ ''a'' # [''b'']"
    by (simp add: f1 sorted_names_def)
  have p: "encode_loop closing_after (family_set one_exporter exposes_a_b id) ([], 0) [] =
      (None, ([], 0))"
    by simp
  have e: "closing_after ([], 0) (map_of (family_set one_exporter exposes_a_b id) ''a'') =
      (Some ''write: broken pipe'', ([], 0))"
    by (simp add: closing_after_def)
  have g1: "logged (fan_out one_exporter exposes_a_b id) = []"
    by (simp add: fan_out_def launch_one_exporter goroutine_def exposes_a_b_def)
  have "Merge one_exporter exposes_a_b id closing_after ([], 0) =
      \<lparr>written = ([], 0),
       logs = logged (fan_out one_exporter exposes_a_b id) @ [Encode_failed ''write: broken pipe'']\<rparr>"
    by (rule encode_error_aborts_emission [OF n p e])
  then show ?thesis by (simp only: g1 append_Nil)
qed




end
